theory Spec2Isabelle
  imports Complex_Main
begin

section \<open>Data model\<close>

text \<open>
  The embedding follows \<^verbatim>\<open>musify/libraries/remote/core/processors/search.py\<close>
  (class \<^verbatim>\<open>RemoteItemSearcher\<close>) and \<^verbatim>\<open>syncify/abstract/item.py\<close> (class
  \<^verbatim>\<open>Item\<close>). Items are mutable Python objects shared by reference, so an item is an
  address (a natural number) into a store \<open>nat \<Rightarrow> item\<close>, and a collection holds the
  addresses of its items. Exceptions are values of \<open>exn\<close>; a function that may raise
  returns \<open>exn + 'a\<close>. The calls to the remote API, the padded log lines and the debug
  line of an empty search are collected as a list of events.
\<close>

datatype RemoteObjectType =
  PLAYLIST | TRACK | ALBUM | ARTIST | USER | SHOW | EPISODE | AUDIOBOOK | CHAPTER

datatype TagField =
  Tag_NAME | Tag_TITLE | Tag_ARTIST | Tag_ALBUM | Tag_LENGTH | Tag_YEAR | Tag_GENRES

datatype exn =
  MusifyAttributeError | KeyError | TypeError | RemoteError string

text \<open>
  \<^verbatim>\<open>Item\<close>: \<open>has_uri\<close> is Python's \<^verbatim>\<open>bool | None\<close>; \<open>item_kind\<close> is \<open>None\<close> when
  the object has no attribute \<^verbatim>\<open>kind\<close>; \<open>clean_tags\<close> is the dictionary
  \<^verbatim>\<open>item.clean_tags\<close> as the matcher's \<^verbatim>\<open>clean_tags(item)\<close> leaves it, its values
  in their \<^verbatim>\<open>str()\<close> form.
\<close>

record item =
  name :: string
  uri :: "string option"
  has_uri :: "bool option"
  item_kind :: "RemoteObjectType option"
  clean_tags :: "TagField \<Rightarrow> string option"

text \<open>
  A collection: \<open>coll_compilation\<close> is \<open>None\<close> when the attribute \<^verbatim>\<open>compilation\<close>
  is absent or is \<^verbatim>\<open>None\<close> (\<^verbatim>\<open>getattr(collection, "compilation", True) is False\<close>
  is false in both cases).
\<close>

record collection =
  coll_name :: string
  coll_items :: "nat list"
  coll_compilation :: "bool option"
  coll_kind :: "RemoteObjectType option"
  coll_clean_tags :: "TagField \<Rightarrow> string option"

text \<open>
  A remote object built by the factory from an API response: its URI, whether the URI
  is a real one, the item total the response declares (\<^verbatim>\<open>_total\<close>) and, for a
  collection, its items.
\<close>

datatype remote =
  Remote (r_name: string) (r_uri: string) (r_has_uri: bool) (r_total: int)
    (r_items: "remote list")

datatype source = SourceItem item | SourceCollection collection "item list"

record ItemSearchResult =
  matched :: "nat list"
  unmatched :: "nat list"
  skipped :: "nat list"

record SearchConfig =
  match_fields :: "TagField set"
  search_fields_1 :: "TagField list"
  search_fields_2 :: "TagField list"
  search_fields_3 :: "TagField list"
  result_count :: int
  min_score :: rat
  max_score :: rat
  allow_karaoke :: bool

datatype 'r event =
  ApiQuery string RemoteObjectType int
  | ApiExtendItems 'r RemoteObjectType
  | LogResults string string nat
  | LogNoResults string string
  | LogMissing string nat
  | LogPadded "string list"
  | LogDebug string

text \<open>
  The collaborators of the searcher, none of which is among the sources: the remote API
  (\<^verbatim>\<open>query\<close>, \<^verbatim>\<open>extend_items\<close>, \<^verbatim>\<open>collection_item_map\<close>), the object factory, the
  matcher inherited from \<^verbatim>\<open>ItemMatcher\<close>, and the wrangler's dummy URI for an
  unavailable item. A call to the API or to the matcher may raise and returns a sum; the
  factory is taken to build an object from every response.
\<close>

record 'r env =
  api_query :: "string \<Rightarrow> RemoteObjectType \<Rightarrow> int \<Rightarrow> exn + 'r list"
  api_extend_items :: "'r \<Rightarrow> RemoteObjectType \<Rightarrow> string \<Rightarrow> bool \<Rightarrow> exn + 'r"
  api_collection_item_map :: "RemoteObjectType \<Rightarrow> string option"
  factory :: "RemoteObjectType \<Rightarrow> 'r \<Rightarrow> remote"
  matcher :: "source \<Rightarrow> remote list \<Rightarrow> TagField set \<Rightarrow> rat \<Rightarrow> rat \<Rightarrow> bool
    \<Rightarrow> exn + remote option"
  use_cache :: bool
  unavailable_uri_dummy :: string

section \<open>Items\<close>

definition truthy :: "bool option \<Rightarrow> bool" where
  "truthy b = (b = Some True)"

text \<open>
  \<^verbatim>\<open>Item.__eq__\<close>: "URI attributes equal if at least one item has a URI, names equal
  otherwise".
\<close>

definition item_eq :: "item \<Rightarrow> item \<Rightarrow> bool" where
  "item_eq self other =
     (if truthy (has_uri self) \<or> truthy (has_uri other)
      then has_uri self = has_uri other \<and> uri self = uri other
      else name self = name other)"

text \<open>
  Modelled from the spec: the concrete \<^verbatim>\<open>uri\<close> setter (the sources hold only the
  abstract declaration \<^verbatim>\<open>Item.uri\<close>, "Set both the uri property and the has_uri
  property"). The spec's three states: a real URI gives \<open>has_uri = True\<close>, the
  unavailable marker gives \<open>False\<close>, no value gives \<open>None\<close>.
\<close>

definition set_uri :: "string \<Rightarrow> item \<Rightarrow> string option \<Rightarrow> item" where
  "set_uri dummy it v =
     (case v of
        None \<Rightarrow> it\<lparr>uri := None, has_uri := None\<rparr>
      | Some u \<Rightarrow>
          if u = dummy then it\<lparr>uri := None, has_uri := Some False\<rparr>
          else it\<lparr>uri := Some u, has_uri := Some True\<rparr>)"

text \<open>
  \<^verbatim>\<open>item in seq\<close> on a tuple of items: identity first, then \<^verbatim>\<open>__eq__\<close>.
\<close>

definition item_in :: "(nat \<Rightarrow> item) \<Rightarrow> nat \<Rightarrow> nat list \<Rightarrow> bool" where
  "item_in st a xs = list_ex (\<lambda>b. a = b \<or> item_eq (st a) (st b)) xs"

section \<open>The query cascade\<close>

fun join_space :: "string list \<Rightarrow> string" where
  "join_space [] = []"
| "join_space [s] = s"
| "join_space (s # t # ts) = s @ '' '' @ join_space (t # ts)"

definition attr_truthy :: "string option \<Rightarrow> bool" where
  "attr_truthy a = (case a of None \<Rightarrow> False | Some s \<Rightarrow> s \<noteq> [])"

definition build_query :: "(TagField \<Rightarrow> string option) \<Rightarrow> TagField list \<Rightarrow> string" where
  "build_query tags keys =
     join_space (map the (filter attr_truthy (map tags keys)))"

text \<open>\<^verbatim>\<open>execute_query\<close>, the closure of \<^verbatim>\<open>_get_results\<close>.\<close>

definition execute_query ::
  "'r env \<Rightarrow> (TagField \<Rightarrow> string option) \<Rightarrow> RemoteObjectType \<Rightarrow> SearchConfig
    \<Rightarrow> TagField list \<Rightarrow> (exn + 'r list \<times> string) \<times> 'r event list" where
  "execute_query env tags kind settings keys =
     (let q = build_query tags keys in
      (case api_query env q kind (result_count settings) of
         Inl e \<Rightarrow> Inl e
       | Inr rs \<Rightarrow> Inr (rs, q),
       [ApiQuery q kind (result_count settings)]))"

text \<open>
  \<^verbatim>\<open>RemoteItemSearcher._get_results\<close>: the result is \<open>None\<close> when the function falls
  off its end (no results).
\<close>

definition get_results ::
  "'r env \<Rightarrow> string \<Rightarrow> (TagField \<Rightarrow> string option) \<Rightarrow> RemoteObjectType \<Rightarrow> SearchConfig
    \<Rightarrow> (exn + 'r list option) \<times> 'r event list" where
  "get_results env nm tags kind settings =
     (case execute_query env tags kind settings (search_fields_1 settings) of
        (Inl e, ev1) \<Rightarrow> (Inl e, ev1)
      | (Inr (results1, query1), ev1) \<Rightarrow>
        (case (if results1 = [] \<and> search_fields_2 settings \<noteq> []
               then execute_query env tags kind settings (search_fields_2 settings)
               else (Inr (results1, query1), [])) of
           (Inl e, ev2) \<Rightarrow> (Inl e, ev1 @ ev2)
         | (Inr (results2, query2), ev2) \<Rightarrow>
           (case (if results2 = [] \<and> search_fields_3 settings \<noteq> []
                  then execute_query env tags kind settings (search_fields_3 settings)
                  else (Inr (results2, query2), [])) of
              (Inl e, ev3) \<Rightarrow> (Inl e, ev1 @ ev2 @ ev3)
            | (Inr (results, query), ev3) \<Rightarrow>
                if results \<noteq> []
                then (Inr (Some results),
                      ev1 @ ev2 @ ev3 @ [LogResults nm query (length results)])
                else (Inr None, ev1 @ ev2 @ ev3 @ [LogNoResults nm query]))))"

text \<open>The class attribute \<^verbatim>\<open>search_settings\<close>.\<close>

definition search_settings :: "RemoteObjectType \<Rightarrow> SearchConfig option" where
  "search_settings kind =
     (case kind of
        TRACK \<Rightarrow> Some \<lparr>match_fields = {Tag_TITLE, Tag_ARTIST, Tag_ALBUM, Tag_LENGTH},
                        search_fields_1 = [Tag_NAME, Tag_ARTIST],
                        search_fields_2 = [Tag_NAME, Tag_ALBUM],
                        search_fields_3 = [Tag_NAME],
                        result_count = 10, min_score = 1 / 10, max_score = 8 / 10,
                        allow_karaoke = False\<rparr>
      | ALBUM \<Rightarrow> Some \<lparr>match_fields = {Tag_ARTIST, Tag_ALBUM, Tag_LENGTH},
                        search_fields_1 = [Tag_NAME, Tag_ARTIST],
                        search_fields_2 = [Tag_NAME],
                        search_fields_3 = [],
                        result_count = 5, min_score = 1 / 10, max_score = 7 / 10,
                        allow_karaoke = False\<rparr>
      | _ \<Rightarrow> None)"

definition determine_remote_object_type :: "RemoteObjectType option \<Rightarrow> exn + RemoteObjectType" where
  "determine_remote_object_type k =
     (case k of Some kind \<Rightarrow> Inr kind | None \<Rightarrow> Inl MusifyAttributeError)"

section \<open>Matching one item\<close>

text \<open>
  \<^verbatim>\<open>RemoteItemSearcher._get_item_match\<close>. With \<^verbatim>\<open>results=None\<close> the candidates are
  the lazy \<^verbatim>\<open>map\<close> object over \<^verbatim>\<open>responses or ()\<close>, which is always truthy, so the
  matcher is called even on no results; a given list of results is truthy when it is
  not empty. The function returns the match; its caller pairs it with the item.
\<close>

definition get_item_match ::
  "'r env \<Rightarrow> item \<Rightarrow> TagField set option \<Rightarrow> remote list option
    \<Rightarrow> (exn + remote option) \<times> 'r event list" where
  "get_item_match env it match_on results =
     (case determine_remote_object_type (item_kind it) of
        Inl e \<Rightarrow> (Inl e, [])
      | Inr kind \<Rightarrow>
        (case search_settings kind of
           None \<Rightarrow> (Inl KeyError, [])
         | Some search_config \<Rightarrow>
           (case (case results of
                    None \<Rightarrow>
                      (case get_results env (name it) (clean_tags it) kind search_config of
                         (Inl e, ev) \<Rightarrow> (Inl e, ev)
                       | (Inr responses, ev) \<Rightarrow>
                           (Inr (map (factory env kind)
                                   (case responses of None \<Rightarrow> [] | Some rs \<Rightarrow> rs), True), ev))
                  | Some rs \<Rightarrow> (Inr (rs, rs \<noteq> []), [])) of
              (Inl e, ev) \<Rightarrow> (Inl e, ev)
            | (Inr (rs, nonempty), ev) \<Rightarrow>
                if nonempty
                then (matcher env (SourceItem it) rs
                        (case match_on of Some m \<Rightarrow> m | None \<Rightarrow> match_fields search_config)
                        (min_score search_config) (max_score search_config)
                        (allow_karaoke search_config), ev)
                else (Inr None, ev))))"

text \<open>
  The loop \<^verbatim>\<open>for item, match in matches: if match and match.has_uri: item.uri = match.uri\<close>.
  Reading the result of a task that raised re-raises its exception there.
\<close>

fun assign_matches ::
  "string \<Rightarrow> (nat \<times> (exn + remote option)) list \<Rightarrow> (nat \<Rightarrow> item)
    \<Rightarrow> (exn + unit) \<times> (nat \<Rightarrow> item)" where
  "assign_matches dummy [] st = (Inr (), st)"
| "assign_matches dummy ((a, Inl e) # ms) st = (Inl e, st)"
| "assign_matches dummy ((a, Inr None) # ms) st = assign_matches dummy ms st"
| "assign_matches dummy ((a, Inr (Some r)) # ms) st =
     assign_matches dummy ms
       (if r_has_uri r then st(a := set_uri dummy (st a) (Some (r_uri r))) else st)"

text \<open>
  \<^verbatim>\<open>RemoteItemSearcher._search_items\<close>. The executor takes the filtered items when
  \<^verbatim>\<open>map\<close> is called and the \<^verbatim>\<open>with\<close> block waits for every task, so every task runs
  on the store as it was, and every task's API calls are made, before the loop assigns.
\<close>

definition search_items ::
  "'r env \<Rightarrow> nat list \<Rightarrow> (nat \<Rightarrow> item) \<Rightarrow> (exn + unit) \<times> (nat \<Rightarrow> item) \<times> 'r event list" where
  "search_items env items st =
     (let to_search = filter (\<lambda>a. has_uri (st a) = None) items;
          runs = map (\<lambda>a. get_item_match env (st a) None None) to_search;
          (out, st') = assign_matches (unavailable_uri_dummy env)
                         (zip to_search (map fst runs)) st
      in (out, st', concat (map snd runs)))"

section \<open>Searching a collection as a unit\<close>

text \<open>The loop \<^verbatim>\<open>for response in responses: self.api.extend_items(response, ...)\<close>.\<close>

fun extend_all ::
  "'r env \<Rightarrow> RemoteObjectType \<Rightarrow> string \<Rightarrow> 'r list \<Rightarrow> (exn + 'r list) \<times> 'r event list" where
  "extend_all env kind key [] = (Inr [], [])"
| "extend_all env kind key (r # rs) =
     (case api_extend_items env r kind key (use_cache env) of
        Inl e \<Rightarrow> (Inl e, [ApiExtendItems r kind])
      | Inr r' \<Rightarrow>
        (case extend_all env kind key rs of
           (Inl e, ev) \<Rightarrow> (Inl e, ApiExtendItems r kind # ev)
         | (Inr rs', ev) \<Rightarrow> (Inr (r' # rs'), ApiExtendItems r kind # ev)))"

text \<open>
  \<^verbatim>\<open>RemoteItemSearcher._search_collection_unit\<close>. Iterating \<^verbatim>\<open>responses\<close> when
  \<^verbatim>\<open>_get_results\<close> returned \<^verbatim>\<open>None\<close> raises \<^verbatim>\<open>TypeError\<close>. \<^verbatim>\<open>sorted\<close> is stable,
  as \<open>sort_key\<close> is. A matched remote collection with no items is falsy
  (\<^verbatim>\<open>__len__\<close>), as \<^verbatim>\<open>None\<close> is.
\<close>

definition search_collection_unit ::
  "'r env \<Rightarrow> collection \<Rightarrow> (nat \<Rightarrow> item) \<Rightarrow> (exn + unit) \<times> (nat \<Rightarrow> item) \<times> 'r event list" where
  "search_collection_unit env coll st =
     (if list_all (\<lambda>a. truthy (has_uri (st a))) (coll_items coll) then (Inr (), st, [])
      else
      (case determine_remote_object_type (coll_kind coll) of
         Inl e \<Rightarrow> (Inl e, st, [])
       | Inr kind \<Rightarrow>
         (case search_settings kind of
            None \<Rightarrow> (Inl KeyError, st, [])
          | Some search_config \<Rightarrow>
            (case get_results env (coll_name coll) (coll_clean_tags coll) kind search_config of
               (Inl e, ev) \<Rightarrow> (Inl e, st, ev)
             | (Inr responses, ev) \<Rightarrow>
               (case api_collection_item_map env kind of
                  None \<Rightarrow> (Inl KeyError, st, ev)
                | Some key \<Rightarrow>
                  (case responses of
                     None \<Rightarrow> (Inl TypeError, st, ev)
                   | Some rs \<Rightarrow>
                     (case extend_all env kind key rs of
                        (Inl e, ev2) \<Rightarrow> (Inl e, st, ev @ ev2)
                      | (Inr extended, ev2) \<Rightarrow>
                        (case matcher env
                                (SourceCollection coll (map st (coll_items coll)))
                                (sort_key
                                   (\<lambda>x. abs (r_total x - int (length (coll_items coll))))
                                   (map (factory env kind) extended))
                                (match_fields search_config) (min_score search_config)
                                (max_score search_config) (allow_karaoke search_config) of
                           Inl e \<Rightarrow> (Inl e, st, ev @ ev2)
                         | Inr None \<Rightarrow> (Inr (), st, ev @ ev2)
                         | Inr (Some result) \<Rightarrow>
                             if r_items result = [] then (Inr (), st, ev @ ev2)
                             else
                               (let to_search =
                                      filter (\<lambda>a. has_uri (st a) = None) (coll_items coll);
                                    runs = map (\<lambda>a. get_item_match env (st a)
                                                  (Some {Tag_TITLE}) (Some (r_items result)))
                                             to_search;
                                    (out, st') =
                                      assign_matches (unavailable_uri_dummy env)
                                        (zip to_search (map fst runs)) st
                                in (out, st', ev @ ev2 @ concat (map snd runs)))))))))))"

section \<open>Searching a collection and a batch\<close>

text \<open>The \<^verbatim>\<open>ItemSearchResult\<close> that \<^verbatim>\<open>_search_collection\<close> returns.\<close>

definition classify :: "(nat \<Rightarrow> item) \<Rightarrow> nat list \<Rightarrow> nat list \<Rightarrow> ItemSearchResult" where
  "classify st items sk =
     \<lparr>matched = filter (\<lambda>a. truthy (has_uri (st a)) \<and> \<not> item_in st a sk) items,
      unmatched = filter (\<lambda>a. has_uri (st a) = None \<and> \<not> item_in st a sk) items,
      skipped = sk\<rparr>"

text \<open>\<^verbatim>\<open>RemoteItemSearcher._search_collection\<close>.\<close>

definition search_collection ::
  "'r env \<Rightarrow> collection \<Rightarrow> (nat \<Rightarrow> item)
    \<Rightarrow> (exn + ItemSearchResult) \<times> (nat \<Rightarrow> item) \<times> 'r event list" where
  "search_collection env coll st =
     (let sk = filter (\<lambda>a. has_uri (st a) \<noteq> None) (coll_items coll);
          ev0 = (if length sk = length (coll_items coll)
                 then [LogPadded [coll_name coll, ''Skipping search, no items to search'']]
                 else []);
          (out, st', ev) =
            (if coll_compilation coll = Some False then
               (case search_collection_unit env coll st of
                  (Inl e, st1, ev1) \<Rightarrow>
                    (Inl e, st1,
                     LogPadded [coll_name coll, ''Searching for collection as a unit''] # ev1)
                | (Inr u, st1, ev1) \<Rightarrow>
                    (let missing = filter (\<lambda>a. has_uri (st1 a) = None) (coll_items coll) in
                     if missing \<noteq> [] then
                       (case search_items env (coll_items coll) st1 of
                          (out2, st2, ev2) \<Rightarrow>
                            (out2, st2,
                             LogPadded [coll_name coll, ''Searching for collection as a unit'']
                               # ev1 @ LogMissing (coll_name coll) (length missing) # ev2))
                     else
                       (Inr (), st1,
                        LogPadded [coll_name coll, ''Searching for collection as a unit'']
                          # ev1)))
             else
               (case search_items env (coll_items coll) st of
                  (out1, st1, ev1) \<Rightarrow>
                    (out1, st1,
                     LogPadded [coll_name coll, ''Searching for distinct items in collection'']
                       # ev1)))
      in (case out of
            Inl e \<Rightarrow> (Inl e, st', ev0 @ ev)
          | Inr u \<Rightarrow> (Inr (classify st' (coll_items coll) sk), st', ev0 @ ev)))"

text \<open>
  The executor's \<^verbatim>\<open>map\<close> over the collections of \<^verbatim>\<open>search\<close>, taken one collection
  after the other in the order given; the first exception ends the batch.
\<close>

fun search_collections ::
  "'r env \<Rightarrow> collection list \<Rightarrow> (nat \<Rightarrow> item)
    \<Rightarrow> (exn + (string \<times> ItemSearchResult) list) \<times> (nat \<Rightarrow> item) \<times> 'r event list" where
  "search_collections env [] st = (Inr [], st, [])"
| "search_collections env (c # cs) st =
     (case search_collection env c st of
        (Inl e, st1, ev1) \<Rightarrow> (Inl e, st1, ev1)
      | (Inr r, st1, ev1) \<Rightarrow>
        (case search_collections env cs st1 of
           (Inl e, st2, ev2) \<Rightarrow> (Inl e, st2, ev1 @ ev2)
         | (Inr rs, st2, ev2) \<Rightarrow> (Inr ((coll_name c, r) # rs), st2, ev1 @ ev2)))"

text \<open>Python's \<^verbatim>\<open>dict(pairs)\<close>: a later pair replaces an earlier one with its key.\<close>

definition dict :: "('k \<times> 'v) list \<Rightarrow> 'k \<Rightarrow> 'v option" where
  "dict pairs = map_of (rev pairs)"

text \<open>\<^verbatim>\<open>RemoteItemSearcher.search\<close>.\<close>

definition search ::
  "'r env \<Rightarrow> collection list \<Rightarrow> (nat \<Rightarrow> item)
    \<Rightarrow> (exn + (string \<Rightarrow> ItemSearchResult option)) \<times> (nat \<Rightarrow> item) \<times> 'r event list" where
  "search env collections st =
     (if filter (\<lambda>a. has_uri (st a) = None) (concat (map coll_items collections)) = []
      then (Inr Map.empty, st, [LogDebug ''No items to search.''])
      else
        (case search_collections env collections st of
           (Inl e, st', ev) \<Rightarrow> (Inl e, st', ev)
         | (Inr pairs, st', ev) \<Rightarrow> (Inr (dict pairs), st', ev)))"

text \<open>The calls of \<^verbatim>\<open>api.query\<close> among the events, and all the calls to the API.\<close>

fun is_query :: "'r event \<Rightarrow> bool" where
  "is_query (ApiQuery q kind limit) = True"
| "is_query e = False"

fun is_api_call :: "'r event \<Rightarrow> bool" where
  "is_api_call (ApiQuery q kind limit) = True"
| "is_api_call (ApiExtendItems r kind) = True"
| "is_api_call e = False"

definition queries :: "'r event list \<Rightarrow> 'r event list" where
  "queries ev = filter is_query ev"

definition api_calls :: "'r event list \<Rightarrow> 'r event list" where
  "api_calls ev = filter is_api_call ev"

section \<open>The cascade as the specification words it\<close>

text \<open>
  Section 4.2 of the specification: the queries of the field-sets are tried in order,
  the first one with results ends the cascade, and an exhausted cascade gives no result.
  \<open>cascade\<close> returns the outcome and the query strings it issued. The field-sets that
  \<^verbatim>\<open>_get_results\<close> plans are field-set 1, and field-sets 2 and 3 where they are
  not empty.
\<close>

fun cascade :: "(string \<Rightarrow> exn + 'r list) \<Rightarrow> string list \<Rightarrow> (exn + 'r list option) \<times> string list" where
  "cascade q [] = (Inr None, [])"
| "cascade q (s # ss) =
     (case q s of
        Inl e \<Rightarrow> (Inl e, [s])
      | Inr rs \<Rightarrow>
          if rs \<noteq> [] then (Inr (Some rs), [s])
          else (case cascade q ss of (out, issued) \<Rightarrow> (out, s # issued)))"

definition planned_field_sets :: "SearchConfig \<Rightarrow> TagField list list" where
  "planned_field_sets settings =
     search_fields_1 settings
       # filter (\<lambda>keys. keys \<noteq> []) [search_fields_2 settings, search_fields_3 settings]"

text \<open>The effect of one turn of the assignment loop on the item it names.\<close>

definition apply_match :: "string \<Rightarrow> remote option \<Rightarrow> item \<Rightarrow> item" where
  "apply_match dummy m it =
     (case m of
        None \<Rightarrow> it
      | Some r \<Rightarrow> if r_has_uri r then set_uri dummy it (Some (r_uri r)) else it)"

section \<open>The scoring matcher\<close>

text \<open>
  Modelled from the spec: \<^verbatim>\<open>ItemMatcher.match\<close> (\<^verbatim>\<open>musify/processors/match.py\<close> is
  not among the sources), after section 4.3 of the specification. Step 1 filters the
  karaoke candidates, steps 2 to 4 scan the remaining ones in order, keeping the first
  candidate of the highest score and stopping at a score of \<open>max_score\<close> or more, step 5
  returns the best candidate when its score is \<open>min_score\<close> or more. The similarity of
  a candidate and the karaoke heuristics are parameters. The second component of the
  result lists the candidates that were scored, in order.
\<close>

definition keep_candidates ::
  "(remote \<Rightarrow> bool) \<Rightarrow> (source \<Rightarrow> bool) \<Rightarrow> source \<Rightarrow> bool \<Rightarrow> remote list \<Rightarrow> remote list" where
  "keep_candidates is_karaoke source_karaoke src allow results =
     filter (\<lambda>c. allow \<or> source_karaoke src \<or> \<not> is_karaoke c) results"

fun scan_candidates ::
  "(remote \<Rightarrow> rat) \<Rightarrow> rat \<Rightarrow> remote list \<Rightarrow> (remote \<times> rat) option
    \<Rightarrow> (remote \<times> rat) option \<times> remote list" where
  "scan_candidates score mx [] best = (best, [])"
| "scan_candidates score mx (c # cs) best =
     (let s = score c;
          best' = (case best of
                     None \<Rightarrow> Some (c, s)
                   | Some (b, bs) \<Rightarrow> if bs < s then Some (c, s) else Some (b, bs))
      in if mx \<le> s then (best', [c])
         else (case scan_candidates score mx cs best' of (r, seen) \<Rightarrow> (r, c # seen)))"

definition match ::
  "(source \<Rightarrow> remote \<Rightarrow> TagField set \<Rightarrow> rat) \<Rightarrow> (remote \<Rightarrow> bool) \<Rightarrow> (source \<Rightarrow> bool)
    \<Rightarrow> source \<Rightarrow> remote list \<Rightarrow> TagField set \<Rightarrow> rat \<Rightarrow> rat \<Rightarrow> bool
    \<Rightarrow> remote option \<times> remote list" where
  "match score is_karaoke source_karaoke src results match_on mn mx allow =
     (case scan_candidates (\<lambda>c. score src c match_on) mx
             (keep_candidates is_karaoke source_karaoke src allow results) None of
        (None, seen) \<Rightarrow> (None, seen)
      | (Some (b, s), seen) \<Rightarrow> (if mn \<le> s then Some b else None, seen))"

section \<open>Concrete inputs\<close>

text \<open>
  A store of tracks given as a list, a remote API whose responses are the remote objects
  themselves, and a matcher that scores a candidate 1 when its name is the source's name
  and 0 otherwise.
\<close>

definition name_tags :: "string \<Rightarrow> TagField \<Rightarrow> string option" where
  "name_tags nm k = (if k = Tag_NAME \<or> k = Tag_TITLE then Some nm else None)"

definition track :: "string \<Rightarrow> string option \<Rightarrow> bool option \<Rightarrow> item" where
  "track nm u h =
     \<lparr>name = nm, uri = u, has_uri = h, item_kind = Some TRACK, clean_tags = name_tags nm\<rparr>"

definition store_of :: "item list \<Rightarrow> nat \<Rightarrow> item" where
  "store_of xs a = (if a < length xs then xs ! a else track [] None None)"

definition album :: "string \<Rightarrow> nat list \<Rightarrow> bool option \<Rightarrow> collection" where
  "album nm xs compilation =
     \<lparr>coll_name = nm, coll_items = xs, coll_compilation = compilation, coll_kind = Some ALBUM,
      coll_clean_tags = name_tags nm\<rparr>"

definition remote_track :: "string \<Rightarrow> string \<Rightarrow> remote" where
  "remote_track nm u = Remote nm u True 0 []"

definition source_name :: "source \<Rightarrow> string" where
  "source_name src = (case src of SourceItem it \<Rightarrow> name it | SourceCollection c xs \<Rightarrow> coll_name c)"

definition name_score :: "source \<Rightarrow> remote \<Rightarrow> TagField set \<Rightarrow> rat" where
  "name_score src c match_on = (if source_name src = r_name c then 1 else 0)"

definition never :: "'a \<Rightarrow> bool" where
  "never x = False"

definition name_matcher ::
  "source \<Rightarrow> remote list \<Rightarrow> TagField set \<Rightarrow> rat \<Rightarrow> rat \<Rightarrow> bool \<Rightarrow> exn + remote option" where
  "name_matcher src results match_on mn mx allow =
     Inr (fst (match name_score never never src results match_on mn mx allow))"

definition catalogue_env :: "(string \<Rightarrow> exn + remote list) \<Rightarrow> remote env" where
  "catalogue_env q =
     \<lparr>api_query = (\<lambda>s kind limit. q s),
      api_extend_items = (\<lambda>r kind key cache. Inr r),
      api_collection_item_map = (\<lambda>kind. if kind = ALBUM \<or> kind = PLAYLIST then Some ''tracks'' else None),
      factory = (\<lambda>kind r. r),
      matcher = name_matcher,
      use_cache = False,
      unavailable_uri_dummy = ''spotify:track:unavailable''\<rparr>"

definition no_results :: "string \<Rightarrow> exn + remote list" where
  "no_results s = Inr []"

text \<open>
  A catalogue that holds one track for every query but \<open>bad\<close>, on which the API raises.
\<close>

definition flaky :: "string \<Rightarrow> string \<Rightarrow> exn + remote list" where
  "flaky bad s =
     (if s = bad then Inl (RemoteError ''api'')
      else Inr [remote_track s (''spotify:track:'' @ s)])"

text \<open>A catalogue that answers every query with one album of two tracks.\<close>

definition one_album :: "string \<Rightarrow> exn + remote list" where
  "one_album s =
     Inr [Remote s (''spotify:album:'' @ s) True 2
            [remote_track ''A'' ''spotify:track:1'', remote_track ''Z'' ''spotify:track:2'']]"

text \<open>The same catalogue, but for the query \<open>bad\<close>, on which the API raises.\<close>

definition one_album_flaky :: "string \<Rightarrow> string \<Rightarrow> exn + remote list" where
  "one_album_flaky bad s = (if s = bad then Inl (RemoteError ''api'') else one_album s)"

definition empty_config :: SearchConfig where
  "empty_config =
     \<lparr>match_fields = {Tag_TITLE}, search_fields_1 = [], search_fields_2 = [],
      search_fields_3 = [], result_count = 10, min_score = 1 / 10, max_score = 8 / 10,
      allow_karaoke = False\<rparr>"

definition fixed_score :: "rat \<Rightarrow> source \<Rightarrow> remote \<Rightarrow> TagField set \<Rightarrow> rat" where
  "fixed_score v src c match_on = v"

section \<open>Evaluation\<close>

lemmas ev_defs =
  search_def search_collection_def search_collection_unit_def search_items_def
  get_item_match_def get_results_def execute_query_def build_query_def attr_truthy_def
  classify_def item_in_def item_eq_def truthy_def store_of_def track_def album_def
  catalogue_env_def no_results_def Let_def name_matcher_def match_def keep_candidates_def
  search_settings_def determine_remote_object_type_def dict_def set_uri_def name_tags_def
  remote_track_def name_score_def never_def source_name_def flaky_def empty_config_def
  queries_def api_calls_def fixed_score_def one_album_def
  one_album_flaky_def

section \<open>Item equality and the classification of results\<close>

lemma item_in_same_name:
  assumes "b \<in> set sk" "\<not> truthy (has_uri (st a))" "\<not> truthy (has_uri (st b))"
    "name (st a) = name (st b)"
  shows "item_in st a sk"
  using assms by (auto simp: item_in_def list_ex_iff item_eq_def)

text \<open>
  Claim C9. Item equality is not structural. When one of two items has a real URI they
  are equal exactly when their \<open>has_uri\<close> flags and their URIs are equal; when neither has,
  they are equal exactly when their names are equal. So an item still without a URI
  whose name is the name of a skipped item without a real URI passes the membership test
  \<^verbatim>\<open>item in skipped\<close>, and the classification puts it neither in \<open>matched\<close> nor in
  \<open>unmatched\<close>.
\<close>

theorem item_eq_not_structural:
  "(truthy (has_uri x) \<or> truthy (has_uri y) \<longrightarrow>
      item_eq x y = (has_uri x = has_uri y \<and> uri x = uri y))
   \<and> (\<not> truthy (has_uri x) \<and> \<not> truthy (has_uri y) \<longrightarrow> item_eq x y = (name x = name y))
   \<and> (b \<in> set sk \<and> has_uri (st a) = None \<and> \<not> truthy (has_uri (st b))
        \<and> name (st a) = name (st b) \<longrightarrow>
        a \<notin> set (matched (classify st xs sk)) \<and> a \<notin> set (unmatched (classify st xs sk)))"
proof -
  have eq: "(truthy (has_uri x) \<or> truthy (has_uri y) \<longrightarrow>
      item_eq x y = (has_uri x = has_uri y \<and> uri x = uri y))
   \<and> (\<not> truthy (has_uri x) \<and> \<not> truthy (has_uri y) \<longrightarrow> item_eq x y = (name x = name y))"
    by (simp add: item_eq_def)
  have "a \<notin> set (matched (classify st xs sk)) \<and> a \<notin> set (unmatched (classify st xs sk))"
    if h: "b \<in> set sk" "has_uri (st a) = None" "\<not> truthy (has_uri (st b))"
      "name (st a) = name (st b)"
  proof -
    have "\<not> truthy (has_uri (st a))" using h(2) by (simp add: truthy_def)
    then have "item_in st a sk" using h by (intro item_in_same_name[of b]) auto
    then show ?thesis by (simp add: classify_def)
  qed
  with eq show ?thesis by blast
qed

theorem item_eq_not_structural_witness:
  "track ''Intro'' None None \<noteq> track ''Intro'' None (Some False)
   \<and> item_eq (track ''Intro'' None None) (track ''Intro'' None (Some False))
   \<and> 0 \<notin> set (unmatched (classify
        (store_of [track ''Intro'' None None, track ''Intro'' None (Some False)]) [0, 1] [1]))
   \<and> \<not> item_eq (track ''Intro'' (Some ''spotify:track:a'') (Some True))
          (track ''Intro'' (Some ''spotify:track:b'') (Some True))"
  using item_eq_not_structural [of "track ''Intro'' None None"
      "track ''Intro'' None (Some False)" 1 "[1]"
      "store_of [track ''Intro'' None None, track ''Intro'' None (Some False)]" 0 "[0, 1]"]
    item_eq_not_structural [of "track ''Intro'' (Some ''spotify:track:a'') (Some True)"
      "track ''Intro'' (Some ''spotify:track:b'') (Some True)" 0 "[]"
      "store_of []" 0 "[]"]
  by (simp add: truthy_def store_of_def track_def)

text \<open>
  Claim C1. The three sequences of a collection's result should partition its items.
  On a playlist of two tracks named "Intro", the first not yet searched and the second
  marked unavailable, with a catalogue that has no results, the first track is searched
  and not matched, and the result lists it nowhere: it is neither matched, nor unmatched,
  nor skipped. Likewise on a playlist that holds a track twice, once with its URI and
  once without: the search finds the same URI for the second, and the result lists the
  newly matched track nowhere.
\<close>

theorem search_drops_item:
  "fst (search (catalogue_env no_results) [album ''P'' [0, 1] None]
         (store_of [track ''Intro'' None None, track ''Intro'' None (Some False)]))
   = Inr [''P'' \<mapsto> \<lparr>matched = [], unmatched = [], skipped = [1]\<rparr>]
   \<and> fst (search (catalogue_env (flaky [])) [album ''P'' [0, 1] None]
         (store_of [track ''A'' None None, track ''A'' (Some ''spotify:track:A'') (Some True)]))
   = Inr [''P'' \<mapsto> \<lparr>matched = [], unmatched = [], skipped = [1]\<rparr>]
   \<and> fst (snd (search (catalogue_env (flaky [])) [album ''P'' [0, 1] None]
         (store_of [track ''A'' None None, track ''A'' (Some ''spotify:track:A'') (Some True)])))
         0
   = track ''A'' (Some ''spotify:track:A'') (Some True)"
  by (simp add: ev_defs del: not_None_eq)

text \<open>
  Claim C2. An exhausted cascade should raise nothing. On an album searched as a unit
  (\<open>compilation = False\<close>) whose cascade finds no results, \<^verbatim>\<open>_get_results\<close> returns
  \<^verbatim>\<open>None\<close> and the loop over the responses raises \<^verbatim>\<open>TypeError\<close>, which ends
  \<^verbatim>\<open>search\<close>; the same track searched as a distinct item ends unmatched, with no
  exception.
\<close>

theorem unit_search_no_results_raises:
  "fst (search (catalogue_env no_results) [album ''P'' [0] (Some False)]
         (store_of [track ''A'' None None]))
   = Inl TypeError
   \<and> fst (search (catalogue_env no_results) [album ''P'' [0] None]
         (store_of [track ''A'' None None]))
   = Inr [''P'' \<mapsto> \<lparr>matched = [], unmatched = [0], skipped = []\<rparr>]"
  by (simp add: ev_defs del: not_None_eq)

section \<open>The cascade of queries\<close>

lemma execute_query_events:
  "snd (execute_query env tags kind settings keys)
   = [ApiQuery (build_query tags keys) kind (result_count settings)]"
  by (simp add: execute_query_def Let_def)

lemma execute_query_result:
  "fst (execute_query env tags kind settings keys)
   = (case api_query env (build_query tags keys) kind (result_count settings) of
        Inl e \<Rightarrow> Inl e | Inr rs \<Rightarrow> Inr (rs, build_query tags keys))"
  by (simp add: execute_query_def Let_def)

lemma get_results_refines:
  "fst (get_results env nm tags kind settings)
   = fst (cascade (\<lambda>s. api_query env s kind (result_count settings))
            (map (build_query tags) (planned_field_sets settings)))"
  by (auto simp: get_results_def execute_query_def planned_field_sets_def Let_def
      split: sum.splits prod.splits)

lemma get_results_queries:
  "queries (snd (get_results env nm tags kind settings))
   = map (\<lambda>s. ApiQuery s kind (result_count settings))
       (snd (cascade (\<lambda>s. api_query env s kind (result_count settings))
            (map (build_query tags) (planned_field_sets settings))))"
  by (auto simp: get_results_def execute_query_def planned_field_sets_def Let_def queries_def
      split: sum.splits prod.splits)

lemma cascade_all_empty:
  "(\<And>s. q s = Inr []) \<Longrightarrow> cascade q ss = (Inr None, ss)"
  by (induction ss) auto


lemma get_item_match_no_results:
  assumes q: "\<forall>s k n. api_query env s k n = Inr []"
    and m: "\<forall>src on mn mx ak. matcher env src [] on mn mx ak = Inr None"
    and k: "item_kind it = Some TRACK"
  shows "fst (get_item_match env it None None) = Inr None
    \<and> length (queries (snd (get_item_match env it None None))) = 3"
  using q m k
  by (simp add: get_item_match_def determine_remote_object_type_def search_settings_def
      get_results_def execute_query_def Let_def queries_def)

lemma search_single_no_results:
  assumes q: "\<forall>s k n. api_query env s k n = Inr []"
    and m: "\<forall>src on mn mx ak. matcher env src [] on mn mx ak = Inr None"
    and c: "coll_items c = [a]" "coll_compilation c \<noteq> Some False"
    and a: "has_uri (st a) = None" "item_kind (st a) = Some TRACK"
  shows "fst (search env [c] st)
      = Inr [coll_name c \<mapsto> \<lparr>matched = [], unmatched = [a], skipped = []\<rparr>]
    \<and> length (queries (snd (snd (search env [c] st)))) = 3"
proof -
  obtain ev where g: "get_item_match env (st a) None None = (Inr None, ev)"
    and n: "length (queries ev) = 3"
    using get_item_match_no_results[OF q m a(2)]
    by (cases "get_item_match env (st a) None None") auto
  show ?thesis
    using c a g n
    by (simp add: search_def search_collection_def search_items_def Let_def classify_def
        item_in_def dict_def queries_def truthy_def del: not_None_eq)
qed

text \<open>
  Claim C4, amended. \<^verbatim>\<open>_get_results\<close> is the cascade of the specification over
  the planned field-sets: field-set 1 is always queried, also when it is empty, then
  field-sets 2 and 3 in this order, each skipped when it is empty; the first query with
  results ends the cascade and gives the result, and an exhausted cascade gives
  \<open>None\<close>. The queries issued are those of the cascade, in its order. With three
  field-sets that are not empty and an API that has no results, three queries are issued
  and the result is \<open>None\<close>; and a collection of one track searched by items, with a
  matcher that finds nothing among no candidates, ends with the track unmatched after
  three queries.
\<close>

theorem get_results_cascade:
  "fst (get_results env nm tags kind settings)
     = fst (cascade (\<lambda>s. api_query env s kind (result_count settings))
              (map (build_query tags) (planned_field_sets settings)))
   \<and> queries (snd (get_results env nm tags kind settings))
     = map (\<lambda>s. ApiQuery s kind (result_count settings))
         (snd (cascade (\<lambda>s. api_query env s kind (result_count settings))
                (map (build_query tags) (planned_field_sets settings))))
   \<and> ((\<forall>s. api_query env s kind (result_count settings) = Inr [])
        \<and> search_fields_1 settings \<noteq> [] \<and> search_fields_2 settings \<noteq> []
        \<and> search_fields_3 settings \<noteq> [] \<longrightarrow>
        fst (get_results env nm tags kind settings) = Inr None
        \<and> length (queries (snd (get_results env nm tags kind settings))) = 3)
   \<and> ((\<forall>s k n. api_query env s k n = Inr [])
        \<and> (\<forall>src on mn mx ak. matcher env src [] on mn mx ak = Inr None)
        \<and> coll_items c = [a] \<and> coll_compilation c \<noteq> Some False
        \<and> has_uri (st a) = None \<and> item_kind (st a) = Some TRACK \<longrightarrow>
        fst (search env [c] st)
          = Inr [coll_name c \<mapsto> \<lparr>matched = [], unmatched = [a], skipped = []\<rparr>]
        \<and> length (queries (snd (snd (search env [c] st)))) = 3)"
proof -
  have three: "fst (get_results env nm tags kind settings) = Inr None
        \<and> length (queries (snd (get_results env nm tags kind settings))) = 3"
    if "\<forall>s. api_query env s kind (result_count settings) = Inr []"
      "search_fields_1 settings \<noteq> []" "search_fields_2 settings \<noteq> []"
      "search_fields_3 settings \<noteq> []"
  proof -
    have "cascade (\<lambda>s. api_query env s kind (result_count settings))
            (map (build_query tags) (planned_field_sets settings))
          = (Inr None, map (build_query tags) (planned_field_sets settings))"
      using that(1) by (intro cascade_all_empty) simp
    moreover have "length (planned_field_sets settings) = 3"
      using that by (simp add: planned_field_sets_def)
    ultimately show ?thesis
      by (simp add: get_results_refines get_results_queries)
  qed
  show ?thesis
    using get_results_refines[of env nm tags kind settings]
      get_results_queries[of env nm tags kind settings] three
      search_single_no_results[of env c a st]
    by blast
qed

theorem get_results_cascade_witness:
  "fst (get_results (catalogue_env no_results) ''A'' (name_tags ''A'') TRACK
          (the (search_settings TRACK))) = Inr None
   \<and> length (queries (snd (get_results (catalogue_env no_results) ''A'' (name_tags ''A'') TRACK
          (the (search_settings TRACK))))) = 3
   \<and> fst (search (catalogue_env no_results) [album ''P'' [0] (Some True)]
            (store_of [track ''A'' None None]))
      = Inr [''P'' \<mapsto> \<lparr>matched = [], unmatched = [0], skipped = []\<rparr>]
   \<and> length (queries (snd (snd (search (catalogue_env no_results) [album ''P'' [0] (Some True)]
            (store_of [track ''A'' None None]))))) = 3"
proof -
  let ?env = "catalogue_env no_results"
  have q: "\<forall>s k n. api_query ?env s k n = Inr []"
    by (simp add: catalogue_env_def no_results_def)
  have m: "\<forall>src on mn mx ak. matcher ?env src [] on mn mx ak = Inr None"
    by (simp add: catalogue_env_def name_matcher_def match_def keep_candidates_def)
  have f: "search_fields_1 (the (search_settings TRACK)) \<noteq> []"
    "search_fields_2 (the (search_settings TRACK)) \<noteq> []"
    "search_fields_3 (the (search_settings TRACK)) \<noteq> []"
    by (simp_all add: search_settings_def)
  have c: "coll_items (album ''P'' [0] (Some True)) = [0]"
    "coll_compilation (album ''P'' [0] (Some True)) \<noteq> Some False"
    "coll_name (album ''P'' [0] (Some True)) = ''P''"
    by (simp_all add: album_def)
  have a: "has_uri (store_of [track ''A'' None None] 0) = None"
    "item_kind (store_of [track ''A'' None None] 0) = Some TRACK"
    by (simp_all add: store_of_def track_def)
  show ?thesis
    using get_results_cascade [of ?env "''A''" "name_tags ''A''" TRACK
        "the (search_settings TRACK)" "album ''P'' [0] (Some True)" 0
        "store_of [track ''A'' None None]"] q m f c a
    by (auto simp only:)
qed

text \<open>
  Claim C4 as stated fails where field-set 1 is empty: the query is issued, with an
  empty query string, and is not skipped.
\<close>

theorem empty_field_set_queried:
  "queries (snd (get_results (catalogue_env no_results) ''A'' (name_tags ''A'') TRACK
     empty_config)) = [ApiQuery [] TRACK 10]
   \<and> search_fields_1 empty_config = []"
  by (simp add: get_results_def execute_query_def build_query_def catalogue_env_def
      no_results_def empty_config_def queries_def)

section \<open>Thresholds of the matcher\<close>

lemma scan_candidates_best:
  "scan_candidates score mx cs best = (Some (b, s), seen)
   \<Longrightarrow> best = Some (b, s) \<or> (b \<in> set cs \<and> s = score b)"
proof (induction cs arbitrary: best seen)
  case Nil
  then show ?case by simp
next
  case (Cons c cs)
  show ?case
  proof (cases "mx \<le> score c")
    case True
    with Cons.prems show ?thesis
      by (auto simp: Let_def split: option.splits if_splits)
  next
    case False
    let ?best' = "case best of None \<Rightarrow> Some (c, score c)
       | Some (b', bs) \<Rightarrow> if bs < score c then Some (c, score c) else Some (b', bs)"
    from Cons.prems False obtain seen' where
      "scan_candidates score mx cs ?best' = (Some (b, s), seen')"
      by (auto simp: Let_def split: prod.splits)
    from Cons.IH[OF this] show ?thesis
      by (auto split: option.splits if_splits)
  qed
qed

lemma scan_candidates_stops:
  assumes "\<forall>p\<in>set pre. score p < mx" "mx \<le> score c"
    "case best of None \<Rightarrow> True | Some (b, s) \<Rightarrow> s < mx"
  shows "scan_candidates score mx (pre @ c # post) best = (Some (c, score c), pre @ [c])"
  using assms
proof (induction pre arbitrary: best)
  case Nil
  then show ?case by (auto simp: Let_def split: option.splits)
next
  case (Cons p pre)
  let ?best' = "case best of None \<Rightarrow> Some (p, score p)
       | Some (b', bs) \<Rightarrow> if bs < score p then Some (p, score p) else Some (b', bs)"
  have "case ?best' of None \<Rightarrow> True | Some (b, s) \<Rightarrow> s < mx"
    using Cons.prems by (auto split: option.splits)
  from Cons.IH[OF _ Cons.prems(2) this] Cons.prems(1)
  have "scan_candidates score mx (pre @ c # post) ?best' = (Some (c, score c), pre @ [c])"
    by simp
  moreover have "\<not> mx \<le> score p" using Cons.prems(1) by auto
  ultimately show ?case by (simp add: Let_def)
qed

text \<open>
  Claim C6, amended. For every item, candidate list and thresholds, \<open>match\<close> returns
  \<open>None\<close> whenever every candidate it keeps scores strictly less than \<open>min_score\<close>
  (the empty list included); and at the first kept candidate whose score is \<open>max_score\<close>
  or more it stops, having scored that candidate and those before it and none after, and
  returns that candidate provided its score is \<open>min_score\<close> or more, which is always so
  when \<open>min_score \<le> max_score\<close>.
\<close>

theorem match_thresholds:
  "((\<forall>c\<in>set (keep_candidates is_karaoke source_karaoke src allow results).
        score src c match_on < mn) \<longrightarrow>
      fst (match score is_karaoke source_karaoke src results match_on mn mx allow) = None)
   \<and> (keep_candidates is_karaoke source_karaoke src allow results = pre @ c # post
        \<and> (\<forall>p\<in>set pre. score src p match_on < mx) \<and> mx \<le> score src c match_on \<longrightarrow>
        snd (match score is_karaoke source_karaoke src results match_on mn mx allow)
          = pre @ [c]
        \<and> (mn \<le> score src c match_on \<or> mn \<le> mx \<longrightarrow>
            fst (match score is_karaoke source_karaoke src results match_on mn mx allow)
              = Some c))"
proof (intro conjI impI)
  let ?kept = "keep_candidates is_karaoke source_karaoke src allow results"
  let ?sc = "\<lambda>c. score src c match_on"
  assume low: "\<forall>c\<in>set ?kept. score src c match_on < mn"
  show "fst (match score is_karaoke source_karaoke src results match_on mn mx allow) = None"
  proof (cases "scan_candidates ?sc mx ?kept None")
    case (Pair best seen)
    show ?thesis
    proof (cases best)
      case None
      with Pair show ?thesis by (simp add: match_def)
    next
      case (Some bs)
      obtain b s where bs: "bs = (b, s)" by (cases bs)
      from scan_candidates_best[of ?sc mx ?kept None b s seen] Pair Some bs
      have "b \<in> set ?kept" "s = score src b match_on" by auto
      with low have "\<not> mn \<le> s" by auto
      with Pair Some bs show ?thesis by (simp add: match_def)
    qed
  qed
next
  let ?kept = "keep_candidates is_karaoke source_karaoke src allow results"
  let ?sc = "\<lambda>c. score src c match_on"
  assume h: "?kept = pre @ c # post \<and> (\<forall>p\<in>set pre. score src p match_on < mx)
    \<and> mx \<le> score src c match_on"
  then have scan: "scan_candidates ?sc mx ?kept None = (Some (c, ?sc c), pre @ [c])"
    using scan_candidates_stops[of pre ?sc mx c None post] by simp
  then show "snd (match score is_karaoke source_karaoke src results match_on mn mx allow)
      = pre @ [c]"
    by (simp add: match_def)
  assume "mn \<le> score src c match_on \<or> mn \<le> mx"
  with h have "mn \<le> score src c match_on" by auto
  with scan show "fst (match score is_karaoke source_karaoke src results match_on mn mx allow)
      = Some c"
    by (simp add: match_def)
qed

theorem match_thresholds_witness:
  "fst (match name_score never never (SourceItem (track ''A'' None None)) []
         {Tag_TITLE} (1 / 10) (8 / 10) False) = None
   \<and> match name_score never never (SourceItem (track ''A'' None None))
        [remote_track ''B'' ''spotify:track:b'', remote_track ''A'' ''spotify:track:a'',
         remote_track ''A'' ''spotify:track:c'']
        {Tag_TITLE} (1 / 10) (8 / 10) False
      = (Some (remote_track ''A'' ''spotify:track:a''),
         [remote_track ''B'' ''spotify:track:b'', remote_track ''A'' ''spotify:track:a''])"
proof -
  let ?src = "SourceItem (track ''A'' None None)"
  let ?b = "remote_track ''B'' ''spotify:track:b''"
  let ?a = "remote_track ''A'' ''spotify:track:a''"
  let ?c = "remote_track ''A'' ''spotify:track:c''"
  have k0: "keep_candidates never never ?src False [] = []"
    by (simp add: keep_candidates_def)
  have k: "keep_candidates never never ?src False [?b, ?a, ?c] = [?b] @ ?a # [?c]"
    by (simp add: keep_candidates_def never_def)
  have s: "\<forall>p\<in>set [?b]. name_score ?src p {Tag_TITLE} < 8 / 10"
    "(8 / 10 :: rat) \<le> name_score ?src ?a {Tag_TITLE}" "(1 / 10 :: rat) \<le> 8 / 10"
    by (simp_all add: name_score_def source_name_def track_def remote_track_def)
  have one: "fst (match name_score never never ?src [] {Tag_TITLE} (1 / 10) (8 / 10) False)
      = None"
    using match_thresholds [of never never ?src False "[]" name_score "{Tag_TITLE}" "1 / 10"
        "8 / 10" "[]" ?a "[]"] k0
    by simp
  have two: "snd (match name_score never never ?src [?b, ?a, ?c] {Tag_TITLE} (1 / 10) (8 / 10)
        False) = [?b] @ [?a]
      \<and> fst (match name_score never never ?src [?b, ?a, ?c] {Tag_TITLE} (1 / 10) (8 / 10)
        False) = Some ?a"
    using match_thresholds [of never never ?src False "[?b, ?a, ?c]" name_score "{Tag_TITLE}"
        "1 / 10" "8 / 10" "[?b]" ?a "[?c]"] k s
    by blast
  show ?thesis using one two by (simp add: prod_eq_iff)
qed

text \<open>
  Claim C6 as stated asks for both \<open>None\<close> and a candidate where a score lies between
  a \<open>max_score\<close> and a larger \<open>min_score\<close>: there the scan stops at the candidate and
  \<open>match\<close> returns \<open>None\<close>.
\<close>

theorem match_max_below_min:
  "(5 / 10 :: rat) \<le> fixed_score (6 / 10) (SourceItem (track ''A'' None None))
        (remote_track ''A'' ''spotify:track:a'') {Tag_TITLE}
   \<and> match (fixed_score (6 / 10)) never never (SourceItem (track ''A'' None None))
        [remote_track ''A'' ''spotify:track:a''] {Tag_TITLE} (9 / 10) (5 / 10) False
      = (None, [remote_track ''A'' ''spotify:track:a''])"
  by (simp add: match_def keep_candidates_def never_def fixed_score_def Let_def)

section \<open>The items that a search changes\<close>

lemma assign_matches_other:
  "b \<notin> fst ` set ms \<Longrightarrow> snd (assign_matches d ms st) b = st b"
  by (induction d ms st rule: assign_matches.induct) auto

lemma assign_matches_same:
  "\<forall>r. (a, Inr (Some r)) \<in> set ms \<longrightarrow> \<not> r_has_uri r
   \<Longrightarrow> snd (assign_matches d ms st) a = st a"
  by (induction d ms st rule: assign_matches.induct) auto

lemma assign_matches_changes:
  "snd (assign_matches d ms st) a \<noteq> st a
   \<Longrightarrow> \<exists>r. (a, Inr (Some r)) \<in> set ms \<and> r_has_uri r"
  using assign_matches_same[of a ms d st] by blast

lemma zip_map_mem:
  "(a, x) \<in> set (zip xs (map g xs)) \<Longrightarrow> a \<in> set xs \<and> g a = x"
  by (induction xs) auto

lemma search_items_store:
  "fst (snd (search_items env items st))
   = snd (assign_matches (unavailable_uri_dummy env)
       (zip (filter (\<lambda>a. has_uri (st a) = None) items)
          (map (\<lambda>a. fst (get_item_match env (st a) None None))
             (filter (\<lambda>a. has_uri (st a) = None) items))) st)"
  by (simp add: search_items_def Let_def comp_def split_beta)

lemma search_items_changes:
  assumes "fst (snd (search_items env items st)) a \<noteq> st a"
  shows "a \<in> set items \<and> has_uri (st a) = None
    \<and> (\<exists>r. fst (get_item_match env (st a) None None) = Inr (Some r) \<and> r_has_uri r)"
proof -
  from assms obtain r where
    "(a, Inr (Some r)) \<in> set (zip (filter (\<lambda>a. has_uri (st a) = None) items)
          (map (\<lambda>a. fst (get_item_match env (st a) None None))
             (filter (\<lambda>a. has_uri (st a) = None) items)))" "r_has_uri r"
    unfolding search_items_store by (blast dest: assign_matches_changes)
  then show ?thesis by (auto dest!: zip_map_mem)
qed

lemma search_collection_unit_store:
  "fst (snd (search_collection_unit env coll st)) = st
   \<or> (\<exists>result. fst (snd (search_collection_unit env coll st))
       = snd (assign_matches (unavailable_uri_dummy env)
           (zip (filter (\<lambda>a. has_uri (st a) = None) (coll_items coll))
              (map (\<lambda>a. fst (get_item_match env (st a) (Some {Tag_TITLE})
                                (Some (r_items result))))
                 (filter (\<lambda>a. has_uri (st a) = None) (coll_items coll)))) st))"
  by (auto simp: search_collection_unit_def Let_def comp_def split_beta
      split: prod.splits sum.splits option.splits)

lemma search_collection_unit_changes:
  assumes "fst (snd (search_collection_unit env coll st)) a \<noteq> st a"
  shows "a \<in> set (coll_items coll) \<and> has_uri (st a) = None
    \<and> (\<exists>result r. fst (get_item_match env (st a) (Some {Tag_TITLE})
                          (Some (r_items result))) = Inr (Some r) \<and> r_has_uri r)"
proof -
  from assms search_collection_unit_store[of env coll st] obtain result where
    "fst (snd (search_collection_unit env coll st))
       = snd (assign_matches (unavailable_uri_dummy env)
           (zip (filter (\<lambda>a. has_uri (st a) = None) (coll_items coll))
              (map (\<lambda>a. fst (get_item_match env (st a) (Some {Tag_TITLE})
                                (Some (r_items result))))
                 (filter (\<lambda>a. has_uri (st a) = None) (coll_items coll)))) st)"
    by auto
  with assms obtain r where
    "(a, Inr (Some r)) \<in> set (zip (filter (\<lambda>a. has_uri (st a) = None) (coll_items coll))
              (map (\<lambda>a. fst (get_item_match env (st a) (Some {Tag_TITLE})
                                (Some (r_items result))))
                 (filter (\<lambda>a. has_uri (st a) = None) (coll_items coll))))" "r_has_uri r"
    by (auto dest: assign_matches_changes)
  then show ?thesis by (auto dest!: zip_map_mem)
qed

lemma search_items_frame:
  assumes "has_uri (st a) \<noteq> None"
  shows "fst (snd (search_items env items st)) a = st a"
proof (rule ccontr)
  assume "fst (snd (search_items env items st)) a \<noteq> st a"
  from search_items_changes[OF this] assms show False by simp
qed

lemma search_collection_unit_frame:
  assumes "has_uri (st a) \<noteq> None"
  shows "fst (snd (search_collection_unit env coll st)) a = st a"
proof (rule ccontr)
  assume "fst (snd (search_collection_unit env coll st)) a \<noteq> st a"
  from search_collection_unit_changes[OF this] assms show False by simp
qed

lemma search_collection_frame:
  assumes "has_uri (st a) \<noteq> None"
  shows "fst (snd (search_collection env coll st)) a = st a"
proof (cases "coll_compilation coll = Some False")
  case False
  then show ?thesis
    using search_items_frame[of st a env "coll_items coll"] assms
    by (auto simp: search_collection_def Let_def split: prod.splits sum.splits)
next
  case True
  obtain out1 st1 ev1 where u: "search_collection_unit env coll st = (out1, st1, ev1)"
    by (cases "search_collection_unit env coll st") auto
  then have st1: "st1 a = st a"
    using search_collection_unit_frame[of st a env coll] assms by simp
  then have "has_uri (st1 a) \<noteq> None" using assms by simp
  then have "fst (snd (search_items env (coll_items coll) st1)) a = st1 a"
    by (rule search_items_frame)
  with st1 u True show ?thesis
    by (auto simp: search_collection_def Let_def split: prod.splits sum.splits)
qed

lemma search_collections_frame:
  "has_uri (st a) \<noteq> None \<Longrightarrow> fst (snd (search_collections env colls st)) a = st a"
proof (induction colls arbitrary: st)
  case Nil
  then show ?case by simp
next
  case (Cons c cs)
  obtain out1 st1 ev1 where c: "search_collection env c st = (out1, st1, ev1)"
    by (cases "search_collection env c st") auto
  then have st1: "st1 a = st a"
    using search_collection_frame[of st a env c] Cons.prems by simp
  then have "has_uri (st1 a) \<noteq> None" using Cons.prems by simp
  then have "fst (snd (search_collections env cs st1)) a = st1 a" by (rule Cons.IH)
  with st1 c show ?case
    by (auto split: prod.splits sum.splits)
qed

lemma search_frame:
  assumes "has_uri (st a) \<noteq> None"
  shows "fst (snd (search env colls st)) a = st a"
proof (cases "search_collections env colls st")
  case (fields out st' ev)
  with search_collections_frame[of st a env colls] assms have "st' a = st a" by simp
  with fields show ?thesis
    by (simp add: search_def split: sum.splits)
qed


text \<open>
  Claim C10. An item whose \<open>has_uri\<close> is not \<open>None\<close> when \<^verbatim>\<open>search\<close> is called is the
  same item when \<^verbatim>\<open>search\<close> returns or raises. \<^verbatim>\<open>_search_items\<close> and
  \<^verbatim>\<open>_search_collection_unit\<close> change an item only if it is one of the given items,
  its \<open>has_uri\<close> is \<open>None\<close>, and the match found for it carries a real URI.
\<close>

theorem search_keeps_items_with_uri:
  "(has_uri (st a) \<noteq> None \<longrightarrow> fst (snd (search env colls st)) a = st a)
   \<and> (fst (snd (search_items env items st)) a \<noteq> st a \<longrightarrow>
        a \<in> set items \<and> has_uri (st a) = None
        \<and> (\<exists>r. fst (get_item_match env (st a) None None) = Inr (Some r) \<and> r_has_uri r))
   \<and> (fst (snd (search_collection_unit env coll st)) a \<noteq> st a \<longrightarrow>
        a \<in> set (coll_items coll) \<and> has_uri (st a) = None
        \<and> (\<exists>result r. fst (get_item_match env (st a) (Some {Tag_TITLE})
                              (Some (r_items result))) = Inr (Some r) \<and> r_has_uri r))"
  using search_frame[of st a env colls] search_items_changes[of env items st a]
    search_collection_unit_changes[of env coll st a]
  by blast

theorem search_keeps_items_with_uri_witness:
  "fst (snd (search (catalogue_env (flaky ''zz'')) [album ''P'' [0, 1, 2] None]
          (store_of [track ''A'' None None, track ''B'' (Some ''spotify:track:x'') (Some True),
             track ''C'' None (Some False)]))) 1
     = track ''B'' (Some ''spotify:track:x'') (Some True)
   \<and> fst (snd (search (catalogue_env (flaky ''zz'')) [album ''P'' [0, 1, 2] None]
          (store_of [track ''A'' None None, track ''B'' (Some ''spotify:track:x'') (Some True),
             track ''C'' None (Some False)]))) 2
     = track ''C'' None (Some False)
   \<and> fst (snd (search (catalogue_env (flaky ''zz'')) [album ''P'' [0, 1, 2] None]
          (store_of [track ''A'' None None, track ''B'' (Some ''spotify:track:x'') (Some True),
             track ''C'' None (Some False)]))) 0
     = track ''A'' (Some ''spotify:track:A'') (Some True)"
proof -
  let ?st = "store_of [track ''A'' None None, track ''B'' (Some ''spotify:track:x'') (Some True),
             track ''C'' None (Some False)]"
  let ?env = "catalogue_env (flaky ''zz'')"
  let ?cs = "[album ''P'' [0, 1, 2] None]"
  have st: "?st 1 = track ''B'' (Some ''spotify:track:x'') (Some True)"
    "?st 2 = track ''C'' None (Some False)"
    by (simp_all add: store_of_def)
  have h: "has_uri (?st 1) \<noteq> None" "has_uri (?st 2) \<noteq> None"
    by (simp_all add: store_of_def track_def)
  have one: "fst (snd (search ?env ?cs ?st)) 1 = ?st 1"
    using search_keeps_items_with_uri[of ?st 1 ?env ?cs "[]" "album ''P'' [] None"] h(1)
    by blast
  have two: "fst (snd (search ?env ?cs ?st)) 2 = ?st 2"
    using search_keeps_items_with_uri[of ?st 2 ?env ?cs "[]" "album ''P'' [] None"] h(2)
    by blast
  have three: "fst (snd (search ?env ?cs ?st)) 0 = track ''A'' (Some ''spotify:track:A'') (Some True)"
    by (simp add: ev_defs del: not_None_eq)
  show ?thesis using one two three st by simp
qed

section \<open>Collections with nothing to search\<close>

lemma search_items_nothing:
  assumes "\<forall>a\<in>set items. has_uri (st a) \<noteq> None"
  shows "search_items env items st = (Inr (), st, [])"
proof -
  have "filter (\<lambda>a. has_uri (st a) = None) items = []"
    using assms by (simp add: filter_empty_conv)
  then show ?thesis by (simp add: search_items_def)
qed

lemma search_collection_unit_nothing:
  assumes "\<forall>a\<in>set (coll_items c). truthy (has_uri (st a))"
  shows "search_collection_unit env c st = (Inr (), st, [])"
  using assms by (simp add: search_collection_unit_def list_all_iff)

lemma classify_all_skipped:
  assumes "\<forall>a\<in>set items. has_uri (st a) \<noteq> None"
  shows "classify st items items = \<lparr>matched = [], unmatched = [], skipped = items\<rparr>"
proof -
  have "\<forall>a\<in>set items. item_in st a items"
    by (auto simp: item_in_def list_ex_iff)
  with assms show ?thesis
    by (simp add: classify_def filter_empty_conv)
qed

lemma search_collection_skipped:
  assumes n: "\<forall>a\<in>set (coll_items c). has_uri (st a) \<noteq> None"
    and u: "(\<forall>a\<in>set (coll_items c). truthy (has_uri (st a))) \<or> coll_compilation c \<noteq> Some False"
  shows "fst (search_collection env c st)
      = Inr \<lparr>matched = [], unmatched = [], skipped = coll_items c\<rparr>
    \<and> fst (snd (search_collection env c st)) = st
    \<and> api_calls (snd (snd (search_collection env c st))) = []"
proof -
  have sk: "filter (\<lambda>a. has_uri (st a) \<noteq> None) (coll_items c) = coll_items c"
    using n by (simp add: filter_id_conv)
  have none: "filter (\<lambda>a. has_uri (st a) = None) (coll_items c) = []"
    using n by (simp add: filter_empty_conv)
  show ?thesis
  proof (cases "coll_compilation c = Some False")
    case True
    with u have "\<forall>a\<in>set (coll_items c). truthy (has_uri (st a))" by simp
    then have "search_collection_unit env c st = (Inr (), st, [])"
      by (rule search_collection_unit_nothing)
    with True sk none classify_all_skipped[OF n] show ?thesis
      by (simp add: search_collection_def Let_def api_calls_def del: not_None_eq)
  next
    case False
    with sk search_items_nothing[OF n, of env] classify_all_skipped[OF n] show ?thesis
      by (simp add: search_collection_def Let_def api_calls_def del: not_None_eq)
  qed
qed

lemma search_nothing:
  assumes "\<forall>c\<in>set colls. \<forall>a\<in>set (coll_items c). has_uri (st a) \<noteq> None"
  shows "search env colls st = (Inr Map.empty, st, [LogDebug ''No items to search.''])"
proof -
  have "filter (\<lambda>a. has_uri (st a) = None) (concat (map coll_items colls)) = []"
    using assms by (auto simp: filter_empty_conv)
  then show ?thesis by (simp add: search_def)
qed

text \<open>
  Claim C5, amended. When no item of any collection of the batch has \<open>has_uri = None\<close>,
  \<^verbatim>\<open>search\<close> calls nothing, changes nothing and returns the empty mapping. When a
  collection is searched whose items all have a \<open>has_uri\<close> other than \<open>None\<close>, and
  either all of them have a real URI or the collection is not searched as a unit, the
  API is not called, no item changes, and the result classifies every item as skipped.
\<close>

theorem skipped_collection_not_queried:
  "((\<forall>c\<in>set colls. \<forall>a\<in>set (coll_items c). has_uri (st a) \<noteq> None) \<longrightarrow>
      search env colls st = (Inr Map.empty, st, [LogDebug ''No items to search.'']))
   \<and> ((\<forall>a\<in>set (coll_items c). has_uri (st a) \<noteq> None)
        \<and> ((\<forall>a\<in>set (coll_items c). truthy (has_uri (st a)))
            \<or> coll_compilation c \<noteq> Some False) \<longrightarrow>
        fst (search_collection env c st)
          = Inr \<lparr>matched = [], unmatched = [], skipped = coll_items c\<rparr>
        \<and> fst (snd (search_collection env c st)) = st
        \<and> api_calls (snd (snd (search_collection env c st))) = [])"
  using search_nothing[of colls st env] search_collection_skipped[of c st env]
  by blast

theorem skipped_collection_not_queried_witness:
  "fst (search (catalogue_env (flaky [])) [album ''P'' [0, 1] (Some False)]
         (store_of [track ''A'' (Some ''spotify:track:a'') (Some True),
                    track ''B'' (Some ''spotify:track:b'') (Some True)]))
     = Inr Map.empty
   \<and> fst (search_collection (catalogue_env (flaky [])) (album ''P'' [0, 1] (Some False))
         (store_of [track ''A'' (Some ''spotify:track:a'') (Some True),
                    track ''B'' (Some ''spotify:track:b'') (Some True)]))
     = Inr \<lparr>matched = [], unmatched = [], skipped = [0, 1]\<rparr>
   \<and> api_calls (snd (snd (search_collection (catalogue_env (flaky []))
         (album ''P'' [0, 1] (Some False))
         (store_of [track ''A'' (Some ''spotify:track:a'') (Some True),
                    track ''B'' (Some ''spotify:track:b'') (Some True)])))) = []"
proof -
  let ?st = "store_of [track ''A'' (Some ''spotify:track:a'') (Some True),
                    track ''B'' (Some ''spotify:track:b'') (Some True)]"
  let ?c = "album ''P'' [0, 1] (Some False)"
  have n: "\<forall>c\<in>set [?c]. \<forall>a\<in>set (coll_items c). has_uri (?st a) \<noteq> None"
    "\<forall>a\<in>set (coll_items ?c). has_uri (?st a) \<noteq> None"
    "\<forall>a\<in>set (coll_items ?c). truthy (has_uri (?st a))"
    by (simp_all add: album_def store_of_def track_def truthy_def del: not_None_eq)
  have i: "coll_items ?c = [0, 1]" by (simp add: album_def)
  show ?thesis
    using skipped_collection_not_queried[of "[?c]" ?st "catalogue_env (flaky [])" ?c] n i
    by simp
qed

text \<open>
  Claim C5 as stated fails: a batch with nothing to search returns the empty mapping,
  which holds no result for the collection; and an album searched as a unit whose only
  track is marked unavailable is queried.
\<close>

theorem skipped_collection_no_result:
  "fst (search (catalogue_env (flaky [])) [album ''P'' [0] None]
         (store_of [track ''A'' (Some ''spotify:track:a'') (Some True)])) = Inr Map.empty
   \<and> queries (snd (snd (search (catalogue_env (flaky []))
         [album ''P'' [0] (Some False), album ''Q'' [1] None]
         (store_of [track ''A'' None (Some False), track ''B'' None None]))))
     = [ApiQuery ''P'' ALBUM 5, ApiQuery ''B'' TRACK 10]"
  by (simp add: ev_defs del: not_None_eq)

section \<open>The mapping returned by a search\<close>

lemma search_collections_names:
  "fst (search_collections env colls st) = Inr pairs \<Longrightarrow> map fst pairs = map coll_name colls"
proof (induction colls arbitrary: st pairs)
  case Nil
  then show ?case by simp
next
  case (Cons c cs)
  obtain out1 st1 ev1 where c: "search_collection env c st = (out1, st1, ev1)"
    by (cases "search_collection env c st") auto
  obtain out2 st2 ev2 where cs: "search_collections env cs st1 = (out2, st2, ev2)"
    by (cases "search_collections env cs st1") auto
  from Cons.prems c cs obtain r rs where "out1 = Inr r" "out2 = Inr rs"
    "pairs = (coll_name c, r) # rs"
    by (auto split: sum.splits)
  moreover from this cs have "map fst rs = map coll_name cs"
    using Cons.IH[of st1 rs] by simp
  ultimately show ?case by simp
qed

lemma dict_Cons:
  "dict (p # ps) k = (case dict ps k of Some v \<Rightarrow> Some v | None \<Rightarrow> map_of [p] k)"
  by (simp add: dict_def map_add_def split: option.splits)

lemma dict_None: "k \<notin> fst ` set ps \<Longrightarrow> dict ps k = None"
  by (simp add: dict_def map_of_eq_None_iff)

lemma dom_dict: "dom (dict ps) = set (map fst ps)"
  by (simp add: dict_def dom_map_of_conv_image_fst)

lemma dict_last:
  "i < length ps \<Longrightarrow> \<forall>j<length ps. i < j \<longrightarrow> fst (ps ! j) \<noteq> fst (ps ! i)
   \<Longrightarrow> dict ps (fst (ps ! i)) = Some (snd (ps ! i))"
proof (induction ps arbitrary: i)
  case Nil
  then show ?case by simp
next
  case (Cons p ps)
  show ?case
  proof (cases i)
    case 0
    have "fst p \<notin> fst ` set ps"
    proof
      assume "fst p \<in> fst ` set ps"
      then obtain j where "j < length ps" "fst (ps ! j) = fst p"
        by (auto simp: in_set_conv_nth)
      with Cons.prems(2) 0 show False by (auto dest: spec[of _ "Suc j"])
    qed
    then have "dict ps (fst p) = None" by (rule dict_None)
    with 0 show ?thesis by (cases p) (simp add: dict_Cons)
  next
    case (Suc i')
    with Cons.prems have i': "i' < length ps"
      and "\<forall>j<length ps. i' < j \<longrightarrow> fst (ps ! j) \<noteq> fst (ps ! i')"
      by auto
    from Cons.IH[OF this] Suc show ?thesis by (simp add: dict_Cons)
  qed
qed

lemma card_not_distinct: "\<not> distinct xs \<Longrightarrow> card (set xs) < length xs"
  using card_distinct[of xs] card_length[of xs] by linarith

text \<open>
  Claim C8, amended. When \<^verbatim>\<open>search\<close> has an item to search and returns a mapping,
  the mapping is keyed by the names of the collections: its keys are exactly these names,
  a name is mapped to the result of the last collection of that name in the input, and
  when two collections share a name the mapping has fewer entries than there are
  collections, so the result of the earlier one is absent.
\<close>

theorem search_keyed_by_name:
  "fst (search env colls st) = Inr m
   \<and> filter (\<lambda>a. has_uri (st a) = None) (concat (map coll_items colls)) \<noteq> [] \<longrightarrow>
   (\<exists>pairs. fst (search_collections env colls st) = Inr pairs
      \<and> map fst pairs = map coll_name colls
      \<and> dom m = set (map coll_name colls)
      \<and> (\<forall>i<length colls.
            (\<forall>j<length colls. i < j \<longrightarrow> coll_name (colls ! j) \<noteq> coll_name (colls ! i)) \<longrightarrow>
            m (coll_name (colls ! i)) = Some (snd (pairs ! i)))
      \<and> (\<not> distinct (map coll_name colls) \<longrightarrow> card (dom m) < length colls))"
proof
  assume h: "fst (search env colls st) = Inr m
   \<and> filter (\<lambda>a. has_uri (st a) = None) (concat (map coll_items colls)) \<noteq> []"
  then obtain pairs where p: "fst (search_collections env colls st) = Inr pairs"
    and m: "m = dict pairs"
    by (auto simp: search_def split: prod.splits sum.splits)
  from p have names: "map fst pairs = map coll_name colls"
    by (rule search_collections_names)
  then have len: "length pairs = length colls"
    by (metis length_map)
  have nth: "fst (pairs ! i) = coll_name (colls ! i)" if "i < length colls" for i
    using names that len by (metis nth_map)
  have dom: "dom m = set (map coll_name colls)"
    using names m by (simp add: dom_dict)
  have last: "m (coll_name (colls ! i)) = Some (snd (pairs ! i))"
    if i: "i < length colls"
      and l: "\<forall>j<length colls. i < j \<longrightarrow> coll_name (colls ! j) \<noteq> coll_name (colls ! i)" for i
  proof -
    have "\<forall>j<length pairs. i < j \<longrightarrow> fst (pairs ! j) \<noteq> fst (pairs ! i)"
      using l i len nth by simp
    with i len have "dict pairs (fst (pairs ! i)) = Some (snd (pairs ! i))"
      by (intro dict_last) simp_all
    with m nth[OF i] show ?thesis by simp
  qed
  have card: "card (dom m) < length colls" if "\<not> distinct (map coll_name colls)"
    using card_not_distinct[OF that] dom by simp
  from p names dom last card
  show "\<exists>pairs. fst (search_collections env colls st) = Inr pairs
      \<and> map fst pairs = map coll_name colls
      \<and> dom m = set (map coll_name colls)
      \<and> (\<forall>i<length colls.
            (\<forall>j<length colls. i < j \<longrightarrow> coll_name (colls ! j) \<noteq> coll_name (colls ! i)) \<longrightarrow>
            m (coll_name (colls ! i)) = Some (snd (pairs ! i)))
      \<and> (\<not> distinct (map coll_name colls) \<longrightarrow> card (dom m) < length colls)"
    by blast
qed

theorem search_keyed_by_name_witness:
  "fst (search (catalogue_env (flaky [])) [album ''P'' [0] None, album ''P'' [1] None]
         (store_of [track ''A'' None None, track ''B'' (Some ''spotify:track:b'') (Some True)]))
     = Inr [''P'' \<mapsto> \<lparr>matched = [], unmatched = [], skipped = [1]\<rparr>]
   \<and> fst (search_collections (catalogue_env (flaky []))
         [album ''P'' [0] None, album ''P'' [1] None]
         (store_of [track ''A'' None None, track ''B'' (Some ''spotify:track:b'') (Some True)]))
     = Inr [(''P'', \<lparr>matched = [0], unmatched = [], skipped = []\<rparr>),
            (''P'', \<lparr>matched = [], unmatched = [], skipped = [1]\<rparr>)]
   \<and> card (dom [''P'' \<mapsto> \<lparr>matched = [], unmatched = [], skipped = [1]\<rparr>]) < 2"
proof -
  let ?st = "store_of [track ''A'' None None,
    track ''B'' (Some ''spotify:track:b'') (Some True)]"
  let ?cs = "[album ''P'' [0] None, album ''P'' [1] None]"
  let ?env = "catalogue_env (flaky [])"
  let ?m = "[''P'' \<mapsto> \<lparr>matched = [], unmatched = [], skipped = [1]\<rparr>]"
  have s: "fst (search ?env ?cs ?st) = Inr ?m"
    by (simp add: ev_defs del: not_None_eq)
  have cs: "fst (search_collections ?env ?cs ?st)
     = Inr [(''P'', \<lparr>matched = [0], unmatched = [], skipped = []\<rparr>),
            (''P'', \<lparr>matched = [], unmatched = [], skipped = [1]\<rparr>)]"
    by (simp add: ev_defs del: not_None_eq)
  have f: "filter (\<lambda>a. has_uri (?st a) = None) (concat (map coll_items ?cs)) \<noteq> []"
    by (simp add: album_def store_of_def track_def)
  have d: "\<not> distinct (map coll_name ?cs)" "length ?cs = 2"
    by (simp_all add: album_def)
  have "card (dom ?m) < 2"
    using search_keyed_by_name[of ?env ?cs ?st ?m] s f d by auto
  with s cs show ?thesis by blast
qed

text \<open>
  Claim C8 as stated fails on two collections of one name with nothing to search: the
  mapping returned is empty and holds no entry for the name.
\<close>

theorem search_same_name_no_entry:
  "fst (search (catalogue_env (flaky [])) [album ''P'' [0] None, album ''P'' [1] None]
         (store_of [track ''A'' (Some ''spotify:track:a'') (Some True),
                    track ''B'' (Some ''spotify:track:b'') (Some True)]))
     = Inr Map.empty
   \<and> coll_name (album ''P'' [0] None) = coll_name (album ''P'' [1] None)
   \<and> album ''P'' [0] None \<noteq> album ''P'' [1] None"
  by (simp add: ev_defs del: not_None_eq)

section \<open>The unit search of a collection\<close>

lemma extend_all_ok:
  "extend_all env kind key rs = (Inr ext, ev)
   \<Longrightarrow> ev = map (\<lambda>r. ApiExtendItems r kind) rs
     \<and> list_all2 (\<lambda>r e. api_extend_items env r kind key (use_cache env) = Inr e) rs ext"
proof (induction rs arbitrary: ext ev)
  case Nil
  then show ?case by simp
next
  case (Cons r rs)
  from Cons.prems obtain r' where r': "api_extend_items env r kind key (use_cache env) = Inr r'"
    by (auto split: sum.splits)
  obtain out ev' where rest: "extend_all env kind key rs = (out, ev')"
    by (cases "extend_all env kind key rs") auto
  with Cons.prems r' obtain rs' where "out = Inr rs'" "ext = r' # rs'"
    "ev = ApiExtendItems r kind # ev'"
    by (auto split: sum.splits)
  with Cons.IH[of rs' ev'] rest r' show ?case by simp
qed

lemma set_uri_idem: "set_uri d (set_uri d it v) v = set_uri d it v"
  by (simp add: set_uri_def split: option.splits)

lemma apply_match_idem: "apply_match d m (apply_match d m it) = apply_match d m it"
  by (simp add: apply_match_def set_uri_idem split: option.splits)

lemma assign_matches_step:
  "assign_matches d ((a, Inr m) # ms) st = assign_matches d ms (st(a := apply_match d m (st a)))"
  by (cases m) (simp_all add: apply_match_def)

lemma assign_matches_all:
  assumes "\<forall>a\<in>set xs. g a = Inr (f a)"
  shows "assign_matches d (zip xs (map g xs)) st
    = (Inr (), \<lambda>a. if a \<in> set xs then apply_match d (f a) (st a) else st a)"
  using assms
proof (induction xs arbitrary: st)
  case Nil
  then show ?case by simp
next
  case (Cons x xs)
  let ?st1 = "st(x := apply_match d (f x) (st x))"
  from Cons.prems have gx: "g x = Inr (f x)" and rest: "\<forall>a\<in>set xs. g a = Inr (f a)"
    by auto
  have "assign_matches d (zip (x # xs) (map g (x # xs))) st
      = assign_matches d (zip xs (map g xs)) ?st1"
    using gx by (simp add: assign_matches_step)
  also have "\<dots> = (Inr (), \<lambda>a. if a \<in> set xs then apply_match d (f a) (?st1 a) else ?st1 a)"
    by (rule Cons.IH[OF rest])
  also have "(\<lambda>a. if a \<in> set xs then apply_match d (f a) (?st1 a) else ?st1 a)
      = (\<lambda>a. if a \<in> set (x # xs) then apply_match d (f a) (st a) else st a)"
    by (auto simp: fun_eq_iff apply_match_idem)
  finally show ?case .
qed

lemma get_item_match_given:
  assumes "item_kind it = Some kind" "search_settings kind = Some cfg" "rs \<noteq> []"
  shows "get_item_match env it (Some match_on) (Some rs)
    = (matcher env (SourceItem it) rs match_on (min_score cfg) (max_score cfg)
         (allow_karaoke cfg), [])"
  using assms by (simp add: get_item_match_def determine_remote_object_type_def)


lemma title_match_track:
  assumes "item_kind it = Some TRACK" "rs \<noteq> []"
  shows "get_item_match env it (Some {Tag_TITLE}) (Some rs)
    = (matcher env (SourceItem it) rs {Tag_TITLE} (1 / 10) (8 / 10) False, [])"
  using get_item_match_given[of it TRACK "the (search_settings TRACK)" rs env "{Tag_TITLE}"] assms
  by (simp add: search_settings_def)

text \<open>
  Claim C7. In the unit search of a collection (one with \<open>compilation = False\<close>, some
  item of which has no real URI), when the query has responses, every response is
  extended with \<^verbatim>\<open>extend_items\<close>, and the matcher finds a remote collection that has
  items: the item listing was fetched for every response of the query, so for the one the
  match was built from; and every item of the collection whose \<open>has_uri\<close> is \<open>None\<close>
  is matched on the title only against the items of the matched remote collection, and
  takes the URI of its match when the match has a real one. The title matches query
  nothing, and the other items are unchanged.
\<close>

theorem unit_search_extends_and_matches_titles:
  assumes todo: "\<not> list_all (\<lambda>a. truthy (has_uri (st a))) (coll_items coll)"
    and kind: "coll_kind coll = Some kind" "search_settings kind = Some cfg"
    and responses: "get_results env (coll_name coll) (coll_clean_tags coll) kind cfg
      = (Inr (Some rs), ev)"
    and key: "api_collection_item_map env kind = Some key"
    and extended: "extend_all env kind key rs = (Inr ext, ev2)"
    and album_match: "matcher env (SourceCollection coll (map st (coll_items coll)))
        (sort_key (\<lambda>x. abs (r_total x - int (length (coll_items coll))))
           (map (factory env kind) ext))
        (match_fields cfg) (min_score cfg) (max_score cfg) (allow_karaoke cfg)
      = Inr (Some result)"
    and listing: "r_items result \<noteq> []"
    and titles: "\<forall>a\<in>set (coll_items coll). has_uri (st a) = None \<longrightarrow>
        item_kind (st a) = Some TRACK
        \<and> matcher env (SourceItem (st a)) (r_items result) {Tag_TITLE} (1 / 10) (8 / 10) False
          = Inr (f a)"
  shows "ev2 = map (\<lambda>r. ApiExtendItems r kind) rs
    \<and> (result \<in> set (map (factory env kind) ext) \<longrightarrow>
         (\<exists>response\<in>set rs. \<exists>e.
             api_extend_items env response kind key (use_cache env) = Inr e
             \<and> result = factory env kind e))
    \<and> search_collection_unit env coll st
       = (Inr (),
          (\<lambda>a. if a \<in> set (coll_items coll) \<and> has_uri (st a) = None
                then apply_match (unavailable_uri_dummy env) (f a) (st a) else st a),
          ev @ ev2)"
proof (intro conjI impI)
  from extend_all_ok[OF extended]
  have ev2: "ev2 = map (\<lambda>r. ApiExtendItems r kind) rs"
    and all2: "list_all2 (\<lambda>r e. api_extend_items env r kind key (use_cache env) = Inr e) rs ext"
    by simp_all
  show "ev2 = map (\<lambda>r. ApiExtendItems r kind) rs" by (rule ev2)
  show "\<exists>response\<in>set rs. \<exists>e.
      api_extend_items env response kind key (use_cache env) = Inr e
      \<and> result = factory env kind e"
    if "result \<in> set (map (factory env kind) ext)"
  proof -
    from that obtain e where e: "e \<in> set ext" "result = factory env kind e" by auto
    then obtain i where i: "i < length ext" "ext ! i = e" by (auto simp: in_set_conv_nth)
    with all2 have "rs ! i \<in> set rs"
      "api_extend_items env (rs ! i) kind key (use_cache env) = Inr e"
      by (auto simp: list_all2_conv_all_nth)
    with e show ?thesis by blast
  qed
  let ?todo = "filter (\<lambda>a. has_uri (st a) = None) (coll_items coll)"
  let ?g = "\<lambda>a. fst (get_item_match env (st a) (Some {Tag_TITLE}) (Some (r_items result)))"
  have run: "get_item_match env (st a) (Some {Tag_TITLE}) (Some (r_items result))
      = (Inr (f a), [])" if "a \<in> set ?todo" for a
    using that titles listing title_match_track[of "st a" "r_items result" env] by auto
  then have g: "\<forall>a\<in>set ?todo. ?g a = Inr (f a)" by simp
  have events: "concat (map (\<lambda>a. snd (get_item_match env (st a) (Some {Tag_TITLE})
      (Some (r_items result)))) ?todo) = []"
    using run by (simp add: concat_eq_Nil_conv del: set_filter)
  have "assign_matches (unavailable_uri_dummy env) (zip ?todo (map ?g ?todo)) st
      = (Inr (), \<lambda>a. if a \<in> set ?todo
           then apply_match (unavailable_uri_dummy env) (f a) (st a) else st a)"
    by (rule assign_matches_all[OF g])
  moreover have "(\<lambda>a. if a \<in> set ?todo
           then apply_match (unavailable_uri_dummy env) (f a) (st a) else st a)
      = (\<lambda>a. if a \<in> set (coll_items coll) \<and> has_uri (st a) = None
           then apply_match (unavailable_uri_dummy env) (f a) (st a) else st a)"
    by (auto simp: fun_eq_iff)
  ultimately show "search_collection_unit env coll st
       = (Inr (),
          (\<lambda>a. if a \<in> set (coll_items coll) \<and> has_uri (st a) = None
                then apply_match (unavailable_uri_dummy env) (f a) (st a) else st a),
          ev @ ev2)"
    using todo kind responses key extended album_match listing events
    by (simp add: search_collection_unit_def determine_remote_object_type_def Let_def
        comp_def del: set_filter)
qed


theorem unit_search_extends_and_matches_titles_witness:
  "fst (snd (search_collection_unit (catalogue_env one_album) (album ''P'' [0, 1] (Some False))
      (store_of [track ''A'' None None, track ''B'' (Some ''spotify:track:b'') (Some True)]))) 0
     = track ''A'' (Some ''spotify:track:1'') (Some True)
   \<and> fst (snd (search_collection_unit (catalogue_env one_album)
      (album ''P'' [0, 1] (Some False))
      (store_of [track ''A'' None None, track ''B'' (Some ''spotify:track:b'') (Some True)]))) 1
     = track ''B'' (Some ''spotify:track:b'') (Some True)
   \<and> snd (snd (search_collection_unit (catalogue_env one_album)
      (album ''P'' [0, 1] (Some False))
      (store_of [track ''A'' None None, track ''B'' (Some ''spotify:track:b'') (Some True)])))
     = [ApiQuery ''P'' ALBUM 5, LogResults ''P'' ''P'' 1,
        ApiExtendItems (Remote ''P'' ''spotify:album:P'' True 2
          [remote_track ''A'' ''spotify:track:1'', remote_track ''Z'' ''spotify:track:2''])
          ALBUM]"
proof -
  let ?env = "catalogue_env one_album"
  let ?coll = "album ''P'' [0, 1] (Some False)"
  let ?st = "store_of [track ''A'' None None,
    track ''B'' (Some ''spotify:track:b'') (Some True)]"
  let ?r = "Remote ''P'' ''spotify:album:P'' True 2
          [remote_track ''A'' ''spotify:track:1'', remote_track ''Z'' ''spotify:track:2'']"
  let ?cfg = "the (search_settings ALBUM)"
  let ?f = "\<lambda>a::nat. Some (remote_track ''A'' ''spotify:track:1'')"
  have todo: "\<not> list_all (\<lambda>a. truthy (has_uri (?st a))) (coll_items ?coll)"
    by (simp add: album_def store_of_def track_def truthy_def)
  have kind: "coll_kind ?coll = Some ALBUM" "search_settings ALBUM = Some ?cfg"
    by (simp_all add: album_def search_settings_def)
  have responses: "get_results ?env (coll_name ?coll) (coll_clean_tags ?coll) ALBUM ?cfg
      = (Inr (Some [?r]), [ApiQuery ''P'' ALBUM 5, LogResults ''P'' ''P'' 1])"
    by (simp add: ev_defs)
  have key: "api_collection_item_map ?env ALBUM = Some ''tracks''"
    by (simp add: catalogue_env_def)
  have extended: "extend_all ?env ALBUM ''tracks'' [?r] = (Inr [?r], [ApiExtendItems ?r ALBUM])"
    by (simp add: catalogue_env_def)
  have album_match: "matcher ?env (SourceCollection ?coll (map ?st (coll_items ?coll)))
        (sort_key (\<lambda>x. abs (r_total x - int (length (coll_items ?coll))))
           (map (factory ?env ALBUM) [?r]))
        (match_fields ?cfg) (min_score ?cfg) (max_score ?cfg) (allow_karaoke ?cfg)
      = Inr (Some ?r)"
    by (simp add: ev_defs)
  have listing: "r_items ?r \<noteq> []" by simp
  have titles: "\<forall>a\<in>set (coll_items ?coll). has_uri (?st a) = None \<longrightarrow>
        item_kind (?st a) = Some TRACK
        \<and> matcher ?env (SourceItem (?st a)) (r_items ?r) {Tag_TITLE} (1 / 10) (8 / 10) False
          = Inr (?f a)"
    by (simp add: ev_defs)
  have run: "search_collection_unit ?env ?coll ?st
       = (Inr (),
          (\<lambda>a. if a \<in> set (coll_items ?coll) \<and> has_uri (?st a) = None
                then apply_match (unavailable_uri_dummy ?env) (?f a) (?st a) else ?st a),
          [ApiQuery ''P'' ALBUM 5, LogResults ''P'' ''P'' 1] @ [ApiExtendItems ?r ALBUM])"
    using unit_search_extends_and_matches_titles [OF todo kind responses key extended
        album_match listing titles]
    by blast
  show ?thesis
    unfolding run
    by (simp add: album_def store_of_def track_def apply_match_def set_uri_def
        remote_track_def catalogue_env_def)
qed

section \<open>Exceptions during the item-level search\<close>











end
